theory Spec2Isabelle
  imports Main "HOL-Library.Sublist"
begin

section \<open>PDF text extraction scripts: extract\_profile.py and extract\_pdf.py\<close>

text \<open>
  The two scripts try PDF libraries one after the other and print what they find.
  Everything they do that is visible from outside is an effect: printing a line,
  importing a library, opening the file with a library. A run is modelled as the list
  of these effects in the order they happen, together with the exception that leaves
  the script uncaught, if any. What the libraries do is not part of the scripts: it is
  the environment, a record that says for each library whether its import raises,
  whether opening the file raises, and what \<open>extract_text\<close> gives on each page; and
  what standard output does with a text it cannot encode.
\<close>

subsection \<open>Exceptions, pages, environment, effects\<close>

text \<open>
  The handlers of the scripts tell two kinds of exception apart: \<open>ImportError\<close>
  (and its subclasses) and every other subclass of \<open>Exception\<close>. Each carries the
  message that \<open>str(e)\<close> gives. Exceptions outside \<open>Exception\<close>
  (\<open>KeyboardInterrupt\<close>, \<open>SystemExit\<close>) are not raised by a library and are
  not modelled.
\<close>

datatype exn = ImportError string | OtherException string

text \<open>
  \<open>page.extract_text()\<close> raises, or returns a \<open>str\<close>, or returns \<open>None\<close>.
\<close>

type_synonym page = "exn + string option"

record env =
  path_exists :: bool
  path_getsize :: nat
  import_module :: "string \<Rightarrow> exn option"
  open_reader :: "string \<Rightarrow> exn + page list"
  stdout_error :: "string \<Rightarrow> exn option"

datatype event = Print string | Import string | Open string

text \<open>A run: the effects in order, and the uncaught exception if there is one.\<close>

type_synonym run = "event list \<times> exn option"

subsection \<open>Printing the extracted text\<close>

text \<open>
  \<open>print(text)\<close> encodes the text for standard output and raises
  \<open>UnicodeEncodeError\<close> when it cannot. Every encoding of standard output covers
  ASCII, so a text of ASCII characters is printed; for any other text the environment
  says whether the print raises, and what. A \<open>print\<close> that raises prints nothing of
  its text. The lines that the scripts compose themselves (the headers and the reports
  of the handlers) are taken to print.
\<close>

definition is_ascii :: "string \<Rightarrow> bool" where
  "is_ascii s = list_all (\<lambda>c. (of_char c :: nat) < 128) s"

definition print_text :: "env \<Rightarrow> string \<Rightarrow> exn option" where
  "print_text e s = (if is_ascii s then None else stdout_error e s)"

subsection \<open>Formatting\<close>

text \<open>The decimal digit of \<open>d\<close>; it is only asked for \<open>d < 10\<close>.\<close>

definition digit_char :: "nat \<Rightarrow> char" where
  "digit_char d = ''0123456789'' ! d"

text \<open>\<open>str(n)\<close> for a non-negative integer: decimal digits, no leading zero.\<close>

fun str_nat :: "nat \<Rightarrow> string" where
  "str_nat n = (if n < 10 then [digit_char n] else str_nat (n div 10) @ [digit_char (n mod 10)])"

declare str_nat.simps [simp del]

text \<open>An f-string field \<open>{page_text}\<close>: a \<open>str\<close> as it is, \<open>None\<close> as the word None.\<close>

fun format_field :: "string option \<Rightarrow> string" where
  "format_field None = ''None''"
| "format_field (Some s) = s"

text \<open>Truth value of \<open>if text:\<close>: false for \<open>None\<close> and for the empty string.\<close>

fun truthy :: "string option \<Rightarrow> bool" where
  "truthy None = False"
| "truthy (Some s) = (s \<noteq> [])"

definition str_bool :: "bool \<Rightarrow> string" where
  "str_bool b = (if b then ''True'' else ''False'')"

definition page_marker :: "nat \<Rightarrow> string" where
  "page_marker n = ''=== PAGE '' @ str_nat n @ '' ===\<newline>''"

text \<open>\<open>f"=== PAGE {i+1} ===\n{page_text}\n\n"\<close>, with \<open>n = i + 1\<close>.\<close>

definition page_section :: "nat \<Rightarrow> string \<Rightarrow> string" where
  "page_section n t = page_marker n @ t @ ''\<newline>\<newline>''"

subsection \<open>The page loops\<close>

text \<open>
  extract\_profile.py, branches pypdf and PyPDF2 (lines 22-24 and 33-35): every page
  adds a section, whatever its text. \<open>i\<close> is the counter of \<open>enumerate\<close>, \<open>text\<close> the
  string accumulated so far. An exception of \<open>extract_text\<close> leaves the loop.
\<close>

fun loop_all_pages :: "nat \<Rightarrow> string \<Rightarrow> page list \<Rightarrow> exn + string" where
  "loop_all_pages i text [] = Inr text"
| "loop_all_pages i text (p # ps) =
     (case p of
        Inl e \<Rightarrow> Inl e
      | Inr page_text \<Rightarrow>
          loop_all_pages (i + 1) (text @ page_section (i + 1) (format_field page_text)) ps)"

text \<open>
  extract\_profile.py, branch pdfplumber (lines 43-46), and both loops of extract\_pdf.py
  (lines 10-15 and 28-33): a page adds a section only under \<open>if page_text:\<close>.
\<close>

fun loop_text_pages :: "nat \<Rightarrow> string \<Rightarrow> page list \<Rightarrow> exn + string" where
  "loop_text_pages i text [] = Inr text"
| "loop_text_pages i text (p # ps) =
     (case p of
        Inl e \<Rightarrow> Inl e
      | Inr page_text \<Rightarrow>
          loop_text_pages (i + 1)
            (if truthy page_text then text @ page_section (i + 1) (format_field page_text)
             else text) ps)"

subsection \<open>One backend: import, open, loop over the pages\<close>

text \<open>
  The body of a \<open>try\<close> up to its \<open>print\<close>: the import, then the reader on the file,
  then the loop. The first exception ends it. The effects made so far are kept.
\<close>

definition run_backend ::
  "(nat \<Rightarrow> string \<Rightarrow> page list \<Rightarrow> exn + string) \<Rightarrow> env \<Rightarrow> string \<Rightarrow> event list \<times> (exn + string)" where
  "run_backend loop e lib =
     (case import_module e lib of
        Some x \<Rightarrow> ([Import lib], Inl x)
      | None \<Rightarrow>
          (case open_reader e lib of
             Inl x \<Rightarrow> ([Import lib, Open lib], Inl x)
           | Inr pages \<Rightarrow> ([Import lib, Open lib], loop 0 [] pages)))"

subsection \<open>extract\_profile.py\<close>

definition pdf_path :: string where
  "pdf_path = ''/Users/maverickshaw/Projects/Samantha/server/workspace/a9ce84d6-3b22-4acc-a074-cb0d7254b4ce/profile.pdf''"

definition libraries_to_try :: "string list" where
  "libraries_to_try = [''pypdf'', ''PyPDF2'', ''pdfplumber'']"

text \<open>
  The two handlers (lines 50-55), after the effects \<open>evs\<close> of the body. Both go on to
  the next library: the flag, which says whether \<open>break\<close> was reached, is false.
\<close>

fun handle_lib :: "string \<Rightarrow> event list \<Rightarrow> exn \<Rightarrow> event list \<times> bool" where
  "handle_lib lib evs (ImportError m) = (evs @ [Print (lib @ '' not available'')], False)"
| "handle_lib lib evs (OtherException m) =
     (evs @ [Print (''Error with '' @ lib @ '': '' @ m)], False)"

text \<open>
  The end of a branch (lines 25-27): the two prints and \<open>break\<close>. They are inside the
  \<open>try\<close>, so an exception of \<open>print(text)\<close> goes to the handlers like one of the
  library.
\<close>

fun finish_lib :: "env \<Rightarrow> string \<Rightarrow> event list \<times> (exn + string) \<Rightarrow> event list \<times> bool" where
  "finish_lib e lib (evs, Inr text) =
     (case print_text e text of
        None \<Rightarrow> (evs @ [Print (''SUCCESS with '' @ lib @ '':''), Print text], True)
      | Some x \<Rightarrow> handle_lib lib (evs @ [Print (''SUCCESS with '' @ lib @ '':'')]) x)"
| "finish_lib e lib (evs, Inl x) = handle_lib lib evs x"

text \<open>The body of the \<open>for\<close> loop (lines 17-55): the chain of \<open>if\<close>/\<open>elif\<close> on the name.\<close>

definition try_lib :: "env \<Rightarrow> string \<Rightarrow> event list \<times> bool" where
  "try_lib e lib =
     (if lib = ''pypdf'' then finish_lib e lib (run_backend loop_all_pages e lib)
      else if lib = ''PyPDF2'' then finish_lib e lib (run_backend loop_all_pages e lib)
      else if lib = ''pdfplumber'' then finish_lib e lib (run_backend loop_text_pages e lib)
      else ([], False))"

text \<open>The \<open>for\<close> loop (line 16): it stops at the first \<open>break\<close>.\<close>

fun try_libs :: "env \<Rightarrow> string list \<Rightarrow> event list" where
  "try_libs e [] = []"
| "try_libs e (lib # libs) =
     (case try_lib e lib of
        (evs, True) \<Rightarrow> evs
      | (evs, False) \<Rightarrow> evs @ try_libs e libs)"

definition extract_profile :: "env \<Rightarrow> run" where
  "extract_profile e =
     ([Print (''Trying to process PDF: '' @ pdf_path),
       Print (''File exists: '' @ str_bool (path_exists e))]
      @ (if path_exists e then [Print (''File size: '' @ str_nat (path_getsize e) @ '' bytes'')] else [])
      @ try_libs e libraries_to_try
      @ [Print ''Finished trying all libraries''], None)"

subsection \<open>extract\_pdf.py\<close>

text \<open>
  Line 3 adds a directory to \<open>sys.path\<close>: it changes which imports succeed, which
  is part of the environment, and has no other effect.
\<close>

text \<open>
  The inner \<open>try\<close> (lines 22-38), inside the handler of \<open>ImportError\<close>. Its only
  handler is for \<open>ImportError\<close>; any other exception leaves the script, since the
  handlers of the outer \<open>try\<close> do not cover its own handlers.
\<close>

fun handle_fallback :: "event list \<Rightarrow> exn \<Rightarrow> run" where
  "handle_fallback evs (ImportError m) =
     (evs @ [Print ''Neither pdfplumber nor PyPDF2 available''], None)"
| "handle_fallback evs (OtherException m) = (evs, Some (OtherException m))"

text \<open>The end of the inner \<open>try\<close>: its \<open>print(full_text)\<close> (line 35) is inside it.\<close>

fun finish_fallback :: "env \<Rightarrow> event list \<times> (exn + string) \<Rightarrow> run" where
  "finish_fallback e (evs, Inr full_text) =
     (case print_text e full_text of
        None \<Rightarrow> (evs @ [Print full_text], None)
      | Some x \<Rightarrow> handle_fallback evs x)"
| "finish_fallback e (evs, Inl x) = handle_fallback evs x"

definition pypdf2_fallback :: "env \<Rightarrow> run" where
  "pypdf2_fallback e = finish_fallback e (run_backend loop_text_pages e ''PyPDF2'')"

text \<open>
  The handlers of the outer \<open>try\<close> (lines 19-41): on \<open>ImportError\<close> the message and
  the inner \<open>try\<close>, on any other exception the message alone.
\<close>

fun handle_outer :: "env \<Rightarrow> event list \<Rightarrow> exn \<Rightarrow> run" where
  "handle_outer e evs (ImportError m) =
     (case pypdf2_fallback e of
        (evs', x) \<Rightarrow> (evs @ [Print (''Error importing pdfplumber: '' @ m)] @ evs', x))"
| "handle_outer e evs (OtherException m) = (evs @ [Print (''Error reading PDF: '' @ m)], None)"

text \<open>The outer \<open>try\<close> (lines 5-17); its \<open>print(full_text)\<close> is inside it.\<close>

definition extract_pdf :: "env \<Rightarrow> run" where
  "extract_pdf e =
     (case run_backend loop_text_pages e ''pdfplumber'' of
        (evs, Inr full_text) \<Rightarrow>
          (case print_text e full_text of
             None \<Rightarrow> (evs @ [Print full_text], None)
           | Some x \<Rightarrow> handle_outer e evs x)
      | (evs, Inl x) \<Rightarrow> handle_outer e evs x)"

section \<open>The output as a sequence of page sections\<close>

text \<open>
  The scripts build one string. Read as data, that string is a sequence of sections, one
  per page that was written: the page index and the page text. \<open>render\<close> is the
  string of such a sequence; \<open>sections_all\<close> and \<open>sections_text\<close> are the
  sequences that the two loops write for pages whose \<open>extract_text\<close> returns
  \<open>texts\<close>, counted from \<open>i\<close>. That the loops compute exactly these is proved
  below (\<open>loop_all_pages_sections\<close>, \<open>loop_text_pages_sections\<close>).
\<close>

definition render :: "(nat \<times> string) list \<Rightarrow> string" where
  "render secs = concat (map (\<lambda>(n, t). page_section n t) secs)"

definition sections_all :: "nat \<Rightarrow> string option list \<Rightarrow> (nat \<times> string) list" where
  "sections_all i texts = map (\<lambda>(k, t). (k + 1, format_field t)) (enumerate i texts)"

definition sections_text :: "nat \<Rightarrow> string option list \<Rightarrow> (nat \<times> string) list" where
  "sections_text i texts =
     map (\<lambda>(k, t). (k + 1, format_field t)) (filter (\<lambda>(k, t). truthy t) (enumerate i texts))"

text \<open>The loop that the branch of extract\_profile.py for a library runs.\<close>

definition loop_of :: "string \<Rightarrow> nat \<Rightarrow> string \<Rightarrow> page list \<Rightarrow> exn + string" where
  "loop_of lib = (if lib = ''pdfplumber'' then loop_text_pages else loop_all_pages)"

section \<open>What a run is expected to show\<close>


fun failure_line :: "string \<Rightarrow> exn \<Rightarrow> string" where
  "failure_line lib (ImportError m) = lib @ '' not available''"
| "failure_line lib (OtherException m) = ''Error with '' @ lib @ '': '' @ m"



section \<open>Concrete environments\<close>


text \<open>pdfplumber is not installed, PyPDF2 is, and PyPDF2 cannot read the file.\<close>

definition env_fallback_open_fails :: env where
  "env_fallback_open_fails =
     \<lparr> path_exists = True, path_getsize = 1024,
       import_module = (\<lambda>lib. if lib = ''PyPDF2'' then None
                              else Some (ImportError (''No module named '' @ lib))),
       open_reader = (\<lambda>lib. Inl (OtherException ''EOF marker not found'')),
       stdout_error = (\<lambda>s. Some (OtherException ''codec cannot encode character'')) \<rparr>"






text \<open>
  A scanned document: every library is installed and reads two pages, one with the
  empty string and one with \<open>None\<close>.
\<close>

definition env_no_text :: env where
  "env_no_text =
     \<lparr> path_exists = True, path_getsize = 1024,
       import_module = (\<lambda>lib. None),
       open_reader = (\<lambda>lib. Inr [Inr (Some []), Inr None]),
       stdout_error = (\<lambda>s. Some (OtherException ''codec cannot encode character'')) \<rparr>"


text \<open>
  Every library is installed and reads four pages: text, the empty string, \<open>None\<close>,
  text.
\<close>

definition env_blank_pages :: env where
  "env_blank_pages =
     \<lparr> path_exists = True, path_getsize = 1024,
       import_module = (\<lambda>lib. None),
       open_reader = (\<lambda>lib. Inr [Inr (Some ''a''), Inr (Some []), Inr None, Inr (Some ''d'')]),
       stdout_error = (\<lambda>s. Some (OtherException ''codec cannot encode character'')) \<rparr>"

text \<open>
  Every library is installed; under pypdf the second of three pages raises, under the
  others it has no text.
\<close>

definition env_page_raises :: env where
  "env_page_raises =
     \<lparr> path_exists = True, path_getsize = 1024,
       import_module = (\<lambda>lib. None),
       open_reader = (\<lambda>lib. if lib = ''pypdf''
                            then Inr [Inr (Some ''a''), Inl (OtherException ''bad stream''),
                                      Inr (Some ''c'')]
                            else Inr [Inr (Some ''a''), Inr None, Inr (Some ''c'')]),
       stdout_error = (\<lambda>s. Some (OtherException ''codec cannot encode character'')) \<rparr>"

section \<open>Splitting the output again\<close>

text \<open>
  The round-trip property speaks of re-splitting the concatenated text on the
  \<open>=== PAGE n ===\<close> markers. The repository has no function that reads the output
  back, so the definitions of this section are written from the description of the
  output: a section is the marker line \<open>=== PAGE <n> ===\<close>, the page text, and a blank
  line.
\<close>

text \<open>Modelled from the spec: a decimal digit of the page number in a marker.\<close>

definition is_digit :: "char \<Rightarrow> bool" where
  "is_digit c = (c \<in> set ''0123456789'')"

text \<open>Modelled from the spec: the value of a decimal digit.\<close>

definition digit_val :: "char \<Rightarrow> nat" where
  "digit_val c = of_char c - 48"

text \<open>Modelled from the spec: the page number \<open>n\<close> read from its decimal digits.\<close>

definition int_of_digits :: "string \<Rightarrow> nat" where
  "int_of_digits ds = foldl (\<lambda>n c. 10 * n + digit_val c) 0 ds"

text \<open>
  Modelled from the spec: the marker line \<open>=== PAGE <n> ===\<close> at the head of \<open>s\<close>,
  which the repository never parses: its number and what follows the line.
\<close>

definition parse_marker :: "string \<Rightarrow> (nat \<times> string) option" where
  "parse_marker s =
     (if prefix ''=== PAGE '' s then
        (let r = drop 9 s; ds = takeWhile is_digit r; r' = dropWhile is_digit r
         in if ds \<noteq> [] \<and> prefix '' ===\<newline>'' r'
            then Some (int_of_digits ds, drop 5 r') else None)
      else None)"

text \<open>
  Modelled from the spec: the blank-line separator that ends a section, which the
  repository never looks for: a blank line followed by the next marker or by the end of
  the text.
\<close>

definition at_section_end :: "string \<Rightarrow> bool" where
  "at_section_end s = (s = ''\<newline>\<newline>'' \<or> prefix ''\<newline>\<newline>=== PAGE '' s)"

text \<open>
  Modelled from the spec: the page text of a section, which the repository never reads
  back: the text up to the end of the section, and what follows the blank line.
\<close>

fun take_body :: "string \<Rightarrow> (string \<times> string) option" where
  "take_body [] = None"
| "take_body (c # cs) =
     (if at_section_end (c # cs) then Some ([], drop 2 (c # cs))
      else (case take_body cs of None \<Rightarrow> None | Some (t, r) \<Rightarrow> Some (c # t, r)))"

text \<open>Both parsers consume input, which is what makes the splitting terminate.\<close>

lemma parse_marker_shorter:
  assumes "parse_marker s = Some (n, r)"
  shows "length r < length s"
proof -
  from assms have r: "r = drop 5 (dropWhile is_digit (drop 9 s))"
    and p: "prefix ''=== PAGE '' s"
    by (auto simp: parse_marker_def Let_def split: if_splits)
  from p have "9 \<le> length s"
    using prefix_length_le by fastforce
  moreover have "length r \<le> length (drop 9 s)"
    unfolding r using length_dropWhile_le [of is_digit "drop 9 s"] by simp
  ultimately show ?thesis by simp
qed

lemma take_body_shorter: "take_body s = Some (t, r) \<Longrightarrow> length r < length s"
  by (induction s arbitrary: t r) (auto split: if_splits option.splits)

text \<open>
  Modelled from the spec: the re-splitting on the \<open>=== PAGE n ===\<close> markers, absent
  from the repository: the sequence of page indices and page texts of a text, or
  \<open>None\<close> when the text is not a sequence of sections.
\<close>

function resplit :: "string \<Rightarrow> (nat \<times> string) list option" where
  "resplit s =
     (if s = [] then Some []
      else (case parse_marker s of
              None \<Rightarrow> None
            | Some (n, r) \<Rightarrow>
                (case take_body r of
                   None \<Rightarrow> None
                 | Some (t, r') \<Rightarrow>
                     (case resplit r' of
                        None \<Rightarrow> None
                      | Some secs \<Rightarrow> Some ((n, t) # secs)))))"
  by pat_completeness auto
termination
proof (relation "measure length")
  show "wf (measure length)" by simp
next
  fix s :: string and x2 :: "nat \<times> string" and n r x2a t r'
  assume "parse_marker s = Some x2" "(n, r) = x2" "take_body r = Some x2a" "(t, r') = x2a"
  then have "length r < length s" "length r' < length r"
    using parse_marker_shorter [of s n r] take_body_shorter [of r t r'] by auto
  then show "(r', s) \<in> measure length" by simp
qed

declare resplit.simps [simp del]

section \<open>Lemmas\<close>

subsection \<open>The loops write the sections\<close>

text \<open>
  When no page raises, each loop returns the rendering of its sequence of sections; when
  a page raises, it returns the exception and nothing of what it had accumulated.
\<close>

lemma render_Cons: "render ((n, t) # secs) = page_section n t @ render secs"
  by (simp add: render_def)

lemma loop_all_pages_sections:
  "loop_all_pages i acc (map Inr texts) = Inr (acc @ render (sections_all i texts))"
proof (induction texts arbitrary: i acc)
  case Nil
  show ?case by (simp add: sections_all_def render_def)
next
  case (Cons t texts)
  have "sections_all i (t # texts) = (i + 1, format_field t) # sections_all (i + 1) texts"
    by (simp add: sections_all_def)
  then show ?case by (simp add: Cons.IH render_Cons)
qed

lemma loop_text_pages_sections:
  "loop_text_pages i acc (map Inr texts) = Inr (acc @ render (sections_text i texts))"
proof (induction texts arbitrary: i acc)
  case Nil
  show ?case by (simp add: sections_text_def render_def)
next
  case (Cons t texts)
  have "sections_text i (t # texts) =
      (if truthy t then [(i + 1, format_field t)] else []) @ sections_text (i + 1) texts"
    by (simp add: sections_text_def)
  then show ?case by (simp add: Cons.IH render_Cons)
qed

lemma loop_all_pages_raises:
  "loop_all_pages i acc (map Inr texts @ Inl x # rest) = Inl x"
  by (induction texts arbitrary: i acc) simp_all

lemma loop_text_pages_raises:
  "loop_text_pages i acc (map Inr texts @ Inl x # rest) = Inl x"
  by (induction texts arbitrary: i acc) simp_all

lemma indices_sections_all: "map fst (sections_all i texts) = [i + 1..<i + 1 + length texts]"
proof -
  have "map fst (sections_all i texts) = map (Suc \<circ> fst) (enumerate i texts)"
    by (simp add: sections_all_def case_prod_unfold comp_def)
  also have "\<dots> = map Suc (map fst (enumerate i texts))"
    by (simp only: map_map)
  also have "\<dots> = [Suc i..<Suc (i + length texts)]"
    by (simp add: map_Suc_upt)
  finally show ?thesis by simp
qed

lemma in_sections_all:
  "(n, s) \<in> set (sections_all 0 texts) \<longleftrightarrow>
     1 \<le> n \<and> n \<le> length texts \<and> format_field (texts ! (n - 1)) = s"
proof
  assume "(n, s) \<in> set (sections_all 0 texts)"
  then obtain k t where "(k, t) \<in> set (enumerate 0 texts)" "n = k + 1" "s = format_field t"
    by (auto simp: sections_all_def)
  then show "1 \<le> n \<and> n \<le> length texts \<and> format_field (texts ! (n - 1)) = s"
    by (auto simp: in_set_enumerate_eq)
next
  assume a: "1 \<le> n \<and> n \<le> length texts \<and> format_field (texts ! (n - 1)) = s"
  then have "(n - 1, texts ! (n - 1)) \<in> set (enumerate 0 texts)"
    by (auto simp: in_set_enumerate_eq)
  then have "((n - 1) + 1, format_field (texts ! (n - 1))) \<in> set (sections_all 0 texts)"
    unfolding sections_all_def by force
  with a show "(n, s) \<in> set (sections_all 0 texts)" by simp
qed

lemma indices_sections_all_sorted: "sorted_wrt (<) (map fst (sections_all i texts))"
  unfolding indices_sections_all by (rule sorted_wrt_upt)

lemma indices_sections_text_sorted: "sorted_wrt (<) (map fst (sections_text i texts))"
proof -
  have "sorted_wrt (<) (map fst (enumerate i texts))"
    by (simp add: sorted_wrt_upt)
  then have "sorted_wrt (\<lambda>x y. fst x < fst y) (enumerate i texts)"
    by (simp only: sorted_wrt_map)
  then have "sorted_wrt (\<lambda>x y. fst x < fst y) (filter (\<lambda>(k, t). truthy t) (enumerate i texts))"
    by (rule sorted_wrt_filter)
  then show ?thesis
    by (simp add: sections_text_def sorted_wrt_map case_prod_unfold)
qed

lemma in_sections_text:
  "(n, s) \<in> set (sections_text 0 texts) \<longleftrightarrow>
     1 \<le> n \<and> n \<le> length texts \<and> texts ! (n - 1) = Some s \<and> s \<noteq> []"
proof
  assume "(n, s) \<in> set (sections_text 0 texts)"
  then obtain k t where "(k, t) \<in> set (enumerate 0 texts)" "truthy t" "n = k + 1" "s = format_field t"
    by (auto simp: sections_text_def)
  then show "1 \<le> n \<and> n \<le> length texts \<and> texts ! (n - 1) = Some s \<and> s \<noteq> []"
    by (cases t) (auto simp: in_set_enumerate_eq)
next
  assume a: "1 \<le> n \<and> n \<le> length texts \<and> texts ! (n - 1) = Some s \<and> s \<noteq> []"
  then have "(n - 1, Some s) \<in> set (enumerate 0 texts)" "truthy (Some s)"
    by (auto simp: in_set_enumerate_eq)
  then have "((n - 1) + 1, format_field (Some s)) \<in> set (sections_text 0 texts)"
    unfolding sections_text_def by force
  with a show "(n, s) \<in> set (sections_text 0 texts)" by simp
qed

lemma sections_text_all_truthy:
  "\<forall>t \<in> set texts. truthy t \<Longrightarrow> sections_text i texts = sections_all i texts"
proof -
  assume "\<forall>t \<in> set texts. truthy t"
  then have "filter (\<lambda>(k, t). truthy t) (enumerate i texts) = enumerate i texts"
    by (auto simp: filter_id_conv in_set_enumerate_eq)
  then show ?thesis by (simp add: sections_text_def sections_all_def)
qed

lemma sections_text_falsy: "\<forall>t \<in> set texts. \<not> truthy t \<Longrightarrow> sections_text i texts = []"
  by (auto simp: sections_text_def filter_empty_conv in_set_enumerate_eq)

subsection \<open>The chain of backends in extract\_profile.py\<close>

text \<open>
  One pass of the \<open>for\<close> loop either reaches \<open>break\<close> and ends the chain, or
  reports its failure and hands over to the next library.
\<close>

lemma try_lib_known:
  "lib \<in> set libraries_to_try \<Longrightarrow> try_lib e lib = finish_lib e lib (run_backend (loop_of lib) e lib)"
  by (auto simp: libraries_to_try_def try_lib_def loop_of_def)

lemma try_libs_Cons:
  "try_libs e (lib # rest) = fst (try_lib e lib) @ (if snd (try_lib e lib) then [] else try_libs e rest)"
  by (auto split: prod.splits bool.splits)

lemma try_libs_broken:
  "snd (try_lib e lib) \<Longrightarrow> try_libs e (lib # post) = fst (try_lib e lib)"
  by (simp add: try_libs_Cons del: try_libs.simps)

lemma try_libs_continued:
  "\<not> snd (try_lib e lib) \<Longrightarrow> try_libs e (lib # post) = fst (try_lib e lib) @ try_libs e post"
  by (simp add: try_libs_Cons del: try_libs.simps)


lemma handle_lib_line: "handle_lib lib evs x = (evs @ [Print (failure_line lib x)], False)"
  by (cases x) simp_all

lemma finish_lib_raised: "finish_lib e lib (evs, Inl x) = (evs @ [Print (failure_line lib x)], False)"
  by (simp add: handle_lib_line)

lemma finish_lib_printed:
  "print_text e out = None \<Longrightarrow>
   finish_lib e lib (evs, Inr out) = (evs @ [Print (''SUCCESS with '' @ lib @ '':''), Print out], True)"
  by simp

lemma finish_lib_print_raises:
  "print_text e out = Some x \<Longrightarrow>
   finish_lib e lib (evs, Inr out) =
     (evs @ [Print (''SUCCESS with '' @ lib @ '':''), Print (failure_line lib x)], False)"
  by (simp add: handle_lib_line)



lemma run_backend_events:
  "set (fst (run_backend loop e lib)) \<subseteq> {Import lib, Open lib}"
  by (auto simp: run_backend_def split: option.splits sum.splits)






lemma try_lib_completes:
  assumes "lib \<in> set libraries_to_try" "import_module e lib = None"
    and "open_reader e lib = Inr pages" "loop_of lib 0 [] pages = Inr out"
    and "print_text e out = None"
  shows "try_lib e lib =
    ([Import lib, Open lib, Print (''SUCCESS with '' @ lib @ '':''), Print out], True)"
  using assms(2-5) by (simp add: try_lib_known [OF assms(1)] run_backend_def)

lemma try_lib_print_raises:
  assumes "lib \<in> set libraries_to_try" "import_module e lib = None"
    and "open_reader e lib = Inr pages" "loop_of lib 0 [] pages = Inr out"
    and "print_text e out = Some x"
  shows "try_lib e lib =
    ([Import lib, Open lib, Print (''SUCCESS with '' @ lib @ '':''), Print (failure_line lib x)],
     False)"
  using assms(2-5)
  by (simp add: try_lib_known [OF assms(1)] run_backend_def handle_lib_line)




lemma try_lib_prints:
  assumes "Print s \<in> set (fst (try_lib e lib))"
  shows "lib \<in> set libraries_to_try \<and>
    (s = lib @ '' not available'' \<or> (\<exists>x. s = ''Error with '' @ lib @ '': '' @ x)
     \<or> s = ''SUCCESS with '' @ lib @ '':''
     \<or> (\<exists>pages. import_module e lib = None \<and> open_reader e lib = Inr pages
           \<and> loop_of lib 0 [] pages = Inr s))"
proof -
  from assms have known: "lib \<in> set libraries_to_try"
    by (auto simp: try_lib_def libraries_to_try_def split: if_splits)
  obtain evs r where rb: "run_backend (loop_of lib) e lib = (evs, r)"
    by (cases "run_backend (loop_of lib) e lib")
  have noprint: "Print s \<notin> set evs"
    using run_backend_events [of "loop_of lib" e lib] rb by auto
  have line: "failure_line lib x = lib @ '' not available''
      \<or> (\<exists>m. failure_line lib x = ''Error with '' @ lib @ '': '' @ m)" for x
    by (cases x) simp_all
  show ?thesis
  proof (cases r)
    case (Inl x)
    with assms rb noprint known line [of x] show ?thesis
      by (auto simp: try_lib_known handle_lib_line simp del: failure_line.simps)
  next
    case (Inr out)
    with rb have completed: "\<exists>pages. import_module e lib = None \<and> open_reader e lib = Inr pages
           \<and> loop_of lib 0 [] pages = Inr out"
      by (auto simp: run_backend_def split: option.splits sum.splits)
    show ?thesis
    proof (cases "print_text e out")
      case None
      with assms rb noprint known Inr completed show ?thesis
        by (auto simp: try_lib_known)
    next
      case (Some x)
      with assms rb noprint known Inr line [of x] show ?thesis
        by (auto simp: try_lib_known handle_lib_line simp del: failure_line.simps)
    qed
  qed
qed

lemma try_libs_prints:
  "Print s \<in> set (try_libs e libs) \<Longrightarrow> \<exists>lib \<in> set libs. Print s \<in> set (fst (try_lib e lib))"
  by (induction libs) (auto simp: try_libs_Cons simp del: try_libs.simps(2) split: if_splits)



subsection \<open>Text that always prints\<close>

text \<open>
  Markers, the empty string and the word None are ASCII, so the text that a loop
  accumulates from pages without text is printed whatever standard output encodes.
\<close>

lemma is_ascii_append: "is_ascii (a @ b) \<longleftrightarrow> is_ascii a \<and> is_ascii b"
  by (simp add: is_ascii_def)

lemma is_ascii_Cons: "is_ascii (c # s) \<longleftrightarrow> (of_char c :: nat) < 128 \<and> is_ascii s"
  by (simp add: is_ascii_def)

lemma is_ascii_Nil: "is_ascii []"
  by (simp add: is_ascii_def)

lemma print_text_ascii: "is_ascii s \<Longrightarrow> print_text e s = None"
  by (simp add: print_text_def)

lemma is_ascii_digit_char: "d < 10 \<Longrightarrow> is_ascii [digit_char d]"
proof -
  assume "d < 10"
  then have "d \<in> {0, 1, 2, 3, 4, 5, 6, 7, 8, 9}" by auto
  then show ?thesis by (auto simp: is_ascii_def digit_char_def)
qed

lemma is_ascii_str_nat: "is_ascii (str_nat n)"
proof (induction n rule: str_nat.induct)
  case (1 n)
  show ?case
  proof (cases "n < 10")
    case True
    then show ?thesis by (simp add: str_nat.simps [of n] is_ascii_digit_char)
  next
    case False
    with 1 show ?thesis
      by (simp add: str_nat.simps [of n] is_ascii_append is_ascii_digit_char)
  qed
qed

lemma is_ascii_page_marker: "is_ascii (page_marker n)"
  using is_ascii_str_nat [of n]
  by (simp add: page_marker_def is_ascii_append is_ascii_Cons is_ascii_Nil)

lemma is_ascii_render:
  "\<forall>(n, t) \<in> set secs. is_ascii t \<Longrightarrow> is_ascii (render secs)"
proof (induction secs)
  case Nil
  show ?case by (simp add: render_def is_ascii_Nil)
next
  case (Cons sec secs)
  obtain n t where sec: "sec = (n, t)" by (cases sec)
  with Cons is_ascii_page_marker [of n] show ?case
    by (simp add: render_Cons page_section_def is_ascii_append is_ascii_Cons)
qed

lemma is_ascii_falsy: "\<not> truthy t \<Longrightarrow> is_ascii (format_field t)"
  by (cases t) (simp_all add: is_ascii_Cons is_ascii_Nil)

lemma is_ascii_sections_all_falsy:
  assumes "\<forall>t \<in> set texts. \<not> truthy t"
  shows "is_ascii (render (sections_all i texts))"
proof (rule is_ascii_render)
  show "\<forall>(n, t) \<in> set (sections_all i texts). is_ascii t"
    using assms by (auto simp: sections_all_def in_set_enumerate_eq is_ascii_falsy)
qed

subsection \<open>Where an exception can leave a script\<close>

text \<open>
  extract\_profile.py catches every exception of a backend and of the print of its
  text. extract\_pdf.py lets exactly one kind through: an exception other than
  \<open>ImportError\<close> raised in the PyPDF2 fallback, which runs inside the handler of
  \<open>ImportError\<close>.
\<close>

lemma extract_profile_no_uncaught: "snd (extract_profile e) = None"
  by (simp add: extract_profile_def)

lemma handle_fallback_uncaught:
  "snd (handle_fallback evs z) = Some x \<longleftrightarrow> (\<exists>y. z = OtherException y \<and> x = z)"
  by (cases z) auto

lemma pypdf2_fallback_uncaught:
  "snd (pypdf2_fallback e) = Some x \<Longrightarrow> \<exists>y. x = OtherException y"
proof -
  assume a: "snd (pypdf2_fallback e) = Some x"
  obtain evs r where rb: "run_backend loop_text_pages e ''PyPDF2'' = (evs, r)"
    by (cases "run_backend loop_text_pages e ''PyPDF2''")
  show ?thesis
  proof (cases r)
    case (Inl z)
    with a rb show ?thesis by (auto simp: pypdf2_fallback_def handle_fallback_uncaught)
  next
    case (Inr out)
    with a rb show ?thesis
      by (cases "print_text e out") (auto simp: pypdf2_fallback_def handle_fallback_uncaught)
  qed
qed

lemma handle_outer_uncaught:
  "snd (handle_outer e evs z) = Some x \<Longrightarrow>
     (\<exists>m. z = ImportError m) \<and> snd (pypdf2_fallback e) = Some x"
  by (cases z) (auto split: prod.splits)

lemma extract_pdf_uncaught:
  assumes "snd (extract_pdf e) = Some x"
  shows "snd (pypdf2_fallback e) = Some x \<and> (\<exists>y. x = OtherException y)"
proof -
  obtain evs r where rb: "run_backend loop_text_pages e ''pdfplumber'' = (evs, r)"
    by (cases "run_backend loop_text_pages e ''pdfplumber''")
  have "snd (pypdf2_fallback e) = Some x"
  proof (cases r)
    case (Inl z)
    with assms rb show ?thesis
      using handle_outer_uncaught [of e evs z x] by (simp add: extract_pdf_def)
  next
    case (Inr out)
    with assms rb show ?thesis
      using handle_outer_uncaught [of e evs _ x]
      by (cases "print_text e out") (auto simp: extract_pdf_def)
  qed
  then show ?thesis using pypdf2_fallback_uncaught by blast
qed



subsection \<open>Reading sections back\<close>

text \<open>
  The page number of a marker is read back as written, and a page text is read back as
  written when no blank line followed by \<open>=== PAGE\<close> occurs inside it.
\<close>

lemma digit_char_props:
  assumes "d < 10"
  shows "is_digit (digit_char d)" and "digit_val (digit_char d) = d"
proof -
  from assms have "d \<in> {0, 1, 2, 3, 4, 5, 6, 7, 8, 9}" by auto
  then show "is_digit (digit_char d)" and "digit_val (digit_char d) = d"
    by (auto simp: is_digit_def digit_char_def digit_val_def)
qed

lemma str_nat_digits: "str_nat n \<noteq> [] \<and> (\<forall>c \<in> set (str_nat n). is_digit c)"
proof (induction n rule: str_nat.induct)
  case (1 n)
  show ?case
  proof (cases "n < 10")
    case True
    then show ?thesis by (simp add: str_nat.simps [of n] digit_char_props)
  next
    case False
    with 1 show ?thesis by (simp add: str_nat.simps [of n] digit_char_props)
  qed
qed

lemma int_of_digits_snoc: "int_of_digits (ds @ [c]) = 10 * int_of_digits ds + digit_val c"
  by (simp add: int_of_digits_def)

lemma int_of_digits_str_nat: "int_of_digits (str_nat n) = n"
proof (induction n rule: str_nat.induct)
  case (1 n)
  show ?case
  proof (cases "n < 10")
    case True
    then show ?thesis by (simp add: str_nat.simps [of n] int_of_digits_def digit_char_props)
  next
    case False
    with 1 have "int_of_digits (str_nat (n div 10)) = n div 10" by simp
    with False show ?thesis
      by (simp add: str_nat.simps [of n] int_of_digits_snoc digit_char_props)
  qed
qed

lemma parse_marker_page_marker: "parse_marker (page_marker n @ rest) = Some (n, rest)"
proof -
  let ?tail = "'' ===\<newline>'' @ rest"
  have digits: "\<And>c. c \<in> set (str_nat n) \<Longrightarrow> is_digit c"
    using str_nat_digits by blast
  have tw: "takeWhile is_digit (str_nat n @ ?tail) = str_nat n"
    using digits by (simp add: takeWhile_append2 is_digit_def)
  have dw: "dropWhile is_digit (str_nat n @ ?tail) = ?tail"
    using digits by (simp add: dropWhile_append2 is_digit_def)
  have "page_marker n @ rest = ''=== PAGE '' @ (str_nat n @ ?tail)"
    by (simp add: page_marker_def)
  then show ?thesis
    using tw dw str_nat_digits [of n]
    by (simp add: parse_marker_def Let_def int_of_digits_str_nat del: takeWhile_append2 dropWhile_append2)
qed

lemma marker_prefix_inside:
  assumes "prefix ''\<newline>\<newline>=== PAGE '' (u @ ''\<newline>\<newline>'' @ rest)" and "u \<noteq> []"
  shows "prefix ''\<newline>\<newline>=== PAGE '' u"
proof -
  from assms(1) consider "prefix ''\<newline>\<newline>=== PAGE '' u"
    | us where "''\<newline>\<newline>=== PAGE '' = u @ us" "prefix us (''\<newline>\<newline>'' @ rest)"
    by (auto simp: prefix_append)
  then show ?thesis
  proof cases
    case 1
    then show ?thesis .
  next
    case 2
    with assms(2) show ?thesis
      by (auto simp: Cons_eq_append_conv)
  qed
qed

lemma take_body_section:
  assumes "\<not> sublist ''\<newline>\<newline>=== PAGE '' t"
    and "rest = [] \<or> prefix ''=== PAGE '' rest"
  shows "take_body (t @ ''\<newline>\<newline>'' @ rest) = Some (t, rest)"
  using assms(1)
proof (induction t)
  case Nil
  from assms(2) show ?case by (auto simp: at_section_end_def)
next
  case (Cons c cs)
  from Cons.prems have np: "\<not> prefix ''\<newline>\<newline>=== PAGE '' (c # cs)"
    and ns: "\<not> sublist ''\<newline>\<newline>=== PAGE '' cs"
    by (simp_all add: sublist_Cons_right)
  have "\<not> prefix ''\<newline>\<newline>=== PAGE '' ((c # cs) @ ''\<newline>\<newline>'' @ rest)"
    using marker_prefix_inside [of "c # cs" rest] np by blast
  then have "\<not> at_section_end (c # cs @ ''\<newline>\<newline>'' @ rest)"
    by (simp add: at_section_end_def)
  with Cons.IH [OF ns] show ?case by simp
qed

lemma render_Nil_or_marker: "render secs = [] \<or> prefix ''=== PAGE '' (render secs)"
  by (cases secs) (auto simp: render_def page_section_def page_marker_def)

lemma resplit_render:
  assumes "\<forall>(n, t) \<in> set secs. \<not> sublist ''\<newline>\<newline>=== PAGE '' t"
  shows "resplit (render secs) = Some secs"
  using assms
proof (induction secs)
  case Nil
  show ?case by (simp add: render_def resplit.simps)
next
  case (Cons sec secs)
  obtain n t where sec: "sec = (n, t)" by (cases sec)
  from Cons.prems sec have clean: "\<not> sublist ''\<newline>\<newline>=== PAGE '' t" by simp
  from Cons have IH: "resplit (render secs) = Some secs" by simp
  let ?r = "t @ ''\<newline>\<newline>'' @ render secs"
  have unfold: "render (sec # secs) = page_marker n @ ?r"
    by (simp add: render_def sec page_section_def)
  have ne: "render (sec # secs) \<noteq> []"
    by (simp add: unfold page_marker_def)
  have marker: "parse_marker (render (sec # secs)) = Some (n, ?r)"
    unfolding unfold by (rule parse_marker_page_marker)
  have body: "take_body ?r = Some (t, render secs)"
    using take_body_section [OF clean render_Nil_or_marker] .
  show ?case
    by (subst resplit.simps) (simp only: ne [unfolded sec] marker [unfolded sec] body IH sec if_False option.case prod.case)
qed

section \<open>Properties\<close>

subsection \<open>A file that does not exist\<close>




subsection \<open>Uncaught exceptions\<close>

text \<open>
  Claim C2. The claim: whatever the file and the environment, a run ends with a result
  (text or a message) and no uncaught exception. In extract\_pdf.py this fails: when the
  import of pdfplumber raises \<open>ImportError\<close> and PyPDF2 then raises any other
  exception, the exception is raised inside the handler of the outer \<open>try\<close>, where
  only \<open>except ImportError\<close> of the inner \<open>try\<close> applies, and the script ends with
  the exception uncaught. The run below is that case.
\<close>

theorem extract_pdf_uncaught_in_fallback:
  "extract_pdf env_fallback_open_fails =
     ([Import ''pdfplumber'', Print ''Error importing pdfplumber: No module named pdfplumber'',
       Import ''PyPDF2'', Open ''PyPDF2''],
      Some (OtherException ''EOF marker not found''))"
  by (simp add: extract_pdf_def env_fallback_open_fails_def run_backend_def print_text_def is_ascii_def pypdf2_fallback_def)

subsection \<open>Errors on opening\<close>




subsection \<open>Documents without text\<close>

text \<open>
  Claim C4 (as amended). The claim: when every page is empty or without text under a
  backend, that backend counts as failed and the next one is tried; an empty result is
  never a success. The scripts have no test on the accumulated text. When a library of
  \<open>libraries_to_try\<close> opens the file and every page is empty or \<open>None\<close>,
  extract\_profile.py prints \<open>SUCCESS with <lib>:\<close> and the accumulated text and
  leaves the chain, whatever libraries \<open>rest\<close> follow. Under pdfplumber, whose loop
  skips such pages, that text is empty; and extract\_pdf.py prints the empty text and
  ends without trying PyPDF2.
\<close>

theorem empty_text_reported_as_success:
  assumes "import_module e lib = None"
    and "open_reader e lib = Inr (map Inr texts)"
    and "\<forall>t \<in> set texts. \<not> truthy t"
  shows "(lib \<in> set libraries_to_try \<longrightarrow>
            (\<exists>out. try_libs e (lib # rest) =
               [Import lib, Open lib, Print (''SUCCESS with '' @ lib @ '':''), Print out]))
       \<and> (lib = ''pdfplumber'' \<longrightarrow>
            try_libs e (lib # rest) = [Import lib, Open lib, Print ''SUCCESS with pdfplumber:'', Print []]
          \<and> extract_pdf e = ([Import lib, Open lib, Print []], None))"
proof (intro conjI impI)
  assume l: "lib \<in> set libraries_to_try"
  have "\<exists>out. loop_of lib 0 [] (map Inr texts) = Inr out \<and> is_ascii out"
  proof (cases "lib = ''pdfplumber''")
    case True
    with assms(3) show ?thesis
      by (simp add: loop_of_def loop_text_pages_sections sections_text_falsy render_def
          is_ascii_Nil)
  next
    case False
    with assms(3) show ?thesis
      by (simp add: loop_of_def loop_all_pages_sections is_ascii_sections_all_falsy)
  qed
  then obtain out where out: "loop_of lib 0 [] (map Inr texts) = Inr out" "is_ascii out"
    by blast
  from try_lib_completes [OF l assms(1,2) out(1) print_text_ascii [OF out(2)]]
  show "\<exists>out. try_libs e (lib # rest) =
      [Import lib, Open lib, Print (''SUCCESS with '' @ lib @ '':''), Print out]"
    by (simp add: try_libs_Cons del: try_libs.simps)
next
  assume l: "lib = ''pdfplumber''"
  have out: "loop_text_pages 0 [] (map Inr texts) = Inr []"
    using assms(3) by (simp add: loop_text_pages_sections sections_text_falsy render_def)
  have printed: "print_text e [] = None"
    by (simp add: print_text_ascii is_ascii_Nil)
  from out have "loop_of lib 0 [] (map Inr texts) = Inr []"
    by (simp add: l loop_of_def)
  from try_lib_completes [OF _ assms(1,2) this printed] l
  show "try_libs e (lib # rest) = [Import lib, Open lib, Print ''SUCCESS with pdfplumber:'', Print []]"
    by (simp add: libraries_to_try_def try_libs_Cons del: try_libs.simps)
  from assms(1,2) out l printed show "extract_pdf e = ([Import lib, Open lib, Print []], None)"
    by (simp add: extract_pdf_def run_backend_def print_text_def is_ascii_def)
qed

text \<open>
  The theorem above at pdfplumber and at PyPDF2 under \<open>env_no_text\<close>, each with
  another library after it that is not tried.
\<close>

theorem empty_text_reported_as_success_witness:
  "try_libs env_no_text [''pdfplumber'', ''pypdf''] =
     [Import ''pdfplumber'', Open ''pdfplumber'', Print ''SUCCESS with pdfplumber:'', Print []]
   \<and> (\<exists>out. try_libs env_no_text [''PyPDF2'', ''pdfplumber''] =
     [Import ''PyPDF2'', Open ''PyPDF2'', Print ''SUCCESS with PyPDF2:'', Print out])"
proof -
  have hyps: "import_module env_no_text lib = None"
    "open_reader env_no_text lib = Inr (map Inr [Some [], None])"
    "\<forall>t \<in> set [Some [], None]. \<not> truthy t" for lib
    by (simp_all add: env_no_text_def)
  from empty_text_reported_as_success [OF hyps, of "''pdfplumber''" "[''pypdf'']"]
  have 1: "try_libs env_no_text [''pdfplumber'', ''pypdf''] =
     [Import ''pdfplumber'', Open ''pdfplumber'', Print ''SUCCESS with pdfplumber:'', Print []]"
    by simp
  from empty_text_reported_as_success [OF hyps, of "''PyPDF2''" "[''pdfplumber'']"]
  have 2: "\<exists>out. try_libs env_no_text [''PyPDF2'', ''pdfplumber''] =
     [Import ''PyPDF2'', Open ''PyPDF2'', Print ''SUCCESS with PyPDF2:'', Print out]"
    by (simp add: libraries_to_try_def del: try_libs.simps)
  from 1 2 show ?thesis by blast
qed

text \<open>
  Counterexample to the claim as stated: no page has text, and both scripts report the
  first library as the result and try no other.
\<close>

theorem no_text_run:
  "extract_profile env_no_text =
     ([Print (''Trying to process PDF: '' @ pdf_path),
       Print ''File exists: True'',
       Print ''File size: 1024 bytes'',
       Import ''pypdf'', Open ''pypdf'',
       Print ''SUCCESS with pypdf:'',
       Print ''=== PAGE 1 ===\<newline>\<newline>\<newline>=== PAGE 2 ===\<newline>None\<newline>\<newline>'',
       Print ''Finished trying all libraries''], None)
   \<and> extract_pdf env_no_text = ([Import ''pdfplumber'', Open ''pdfplumber'', Print []], None)"
  by (simp add: extract_profile_def extract_pdf_def env_no_text_def libraries_to_try_def try_lib_def
      run_backend_def print_text_def is_ascii_def page_section_def page_marker_def str_nat.simps digit_char_def str_bool_def)

subsection \<open>The first backend that completes\<close>




subsection \<open>Pages without text\<close>

text \<open>
  Claim C6. The claim: a page whose text is empty or absent adds nothing to the output,
  neither marker nor text. The loops under \<open>if page_text:\<close> do that; the loops of the
  branches pypdf and PyPDF2 of extract\_profile.py have no such test, and there the
  empty page 2 and the absent page 3 each get a marker, the absent one with the text
  None. The run below is that case.
\<close>

theorem extract_profile_blank_page_gets_marker:
  "extract_profile env_blank_pages =
     ([Print (''Trying to process PDF: '' @ pdf_path),
       Print ''File exists: True'',
       Print ''File size: 1024 bytes'',
       Import ''pypdf'', Open ''pypdf'',
       Print ''SUCCESS with pypdf:'',
       Print ''=== PAGE 1 ===\<newline>a\<newline>\<newline>=== PAGE 2 ===\<newline>\<newline>\<newline>=== PAGE 3 ===\<newline>None\<newline>\<newline>=== PAGE 4 ===\<newline>d\<newline>\<newline>'',
       Print ''Finished trying all libraries''], None)"
  by (simp add: extract_profile_def env_blank_pages_def libraries_to_try_def try_lib_def
      run_backend_def print_text_def is_ascii_def page_section_def page_marker_def str_nat.simps digit_char_def str_bool_def)

subsection \<open>An unavailable first backend\<close>




subsection \<open>Page indices\<close>

text \<open>
  Claim C8 (as amended). The claim: the page indices of a successful result are
  contiguous, start at 1 and match the page count. For pages that return \<open>texts\<close>,
  each loop returns the rendering of its sections, and in both the indices increase
  strictly, lie between 1 and the page count, and the section with index \<open>n\<close> holds
  the text of page \<open>n\<close>. Under \<open>if page_text:\<close> a section \<open>(n, s)\<close> is written
  exactly when page \<open>n\<close> has the non-empty text \<open>s\<close>, so pages without text leave
  gaps. When every page has text, the indices are \<open>1, ..., length texts\<close>.
\<close>

theorem page_indices_increasing_one_based:
  "loop_text_pages 0 [] (map Inr texts) = Inr (render (sections_text 0 texts))
   \<and> sorted_wrt (<) (map fst (sections_text 0 texts))
   \<and> (\<forall>n s. (n, s) \<in> set (sections_text 0 texts) \<longleftrightarrow>
         1 \<le> n \<and> n \<le> length texts \<and> texts ! (n - 1) = Some s \<and> s \<noteq> [])
   \<and> loop_all_pages 0 [] (map Inr texts) = Inr (render (sections_all 0 texts))
   \<and> sorted_wrt (<) (map fst (sections_all 0 texts))
   \<and> (\<forall>n s. (n, s) \<in> set (sections_all 0 texts) \<longrightarrow>
         1 \<le> n \<and> n \<le> length texts \<and> format_field (texts ! (n - 1)) = s)
   \<and> ((\<forall>t \<in> set texts. truthy t) \<longrightarrow>
         map fst (sections_text 0 texts) = [1..<Suc (length texts)]
       \<and> map fst (sections_all 0 texts) = [1..<Suc (length texts)])"
proof (intro conjI allI impI)
  show "loop_text_pages 0 [] (map Inr texts) = Inr (render (sections_text 0 texts))"
    using loop_text_pages_sections [of 0 "[]" texts] by simp
  show "sorted_wrt (<) (map fst (sections_text 0 texts))"
    by (rule indices_sections_text_sorted)
  show "(n, s) \<in> set (sections_text 0 texts) \<longleftrightarrow>
      1 \<le> n \<and> n \<le> length texts \<and> texts ! (n - 1) = Some s \<and> s \<noteq> []" for n s
    by (rule in_sections_text)
  show "loop_all_pages 0 [] (map Inr texts) = Inr (render (sections_all 0 texts))"
    using loop_all_pages_sections [of 0 "[]" texts] by simp
  show "sorted_wrt (<) (map fst (sections_all 0 texts))"
    by (rule indices_sections_all_sorted)
  show "1 \<le> n" "n \<le> length texts" "format_field (texts ! (n - 1)) = s"
    if "(n, s) \<in> set (sections_all 0 texts)" for n s
    using that by (simp_all add: in_sections_all)
  show "map fst (sections_text 0 texts) = [1..<Suc (length texts)]" if "\<forall>t \<in> set texts. truthy t"
    using that indices_sections_all [of 0 texts] by (simp add: sections_text_all_truthy)
  show "map fst (sections_all 0 texts) = [1..<Suc (length texts)]"
    using indices_sections_all [of 0 texts] by simp
qed

text \<open>
  The theorem above at two pages with text: the indices are 1 and 2.
\<close>

theorem page_indices_increasing_one_based_witness:
  "map fst (sections_text 0 [Some ''a'', Some ''b'']) = [1, 2]
   \<and> loop_text_pages 0 [] [Inr (Some ''a''), Inr (Some ''b'')] =
       Inr (render (sections_text 0 [Some ''a'', Some ''b'']))"
  using page_indices_increasing_one_based [of "[Some ''a'', Some ''b'']"]
  by (simp add: upt_rec)

text \<open>
  Counterexample to the claim as stated: of four pages, the second and third have no
  text, and the result of extract\_pdf.py holds the indices 1 and 4: not contiguous, and
  two sections for four pages.
\<close>

theorem text_pages_skip_indices:
  "open_reader env_blank_pages ''pdfplumber'' = Inr (map Inr [Some ''a'', Some [], None, Some ''d''])
   \<and> extract_pdf env_blank_pages =
     ([Import ''pdfplumber'', Open ''pdfplumber'',
       Print ''=== PAGE 1 ===\<newline>a\<newline>\<newline>=== PAGE 4 ===\<newline>d\<newline>\<newline>''], None)
   \<and> map fst (sections_text 0 [Some ''a'', Some [], None, Some ''d'']) = [1, 4]"
  by (simp add: extract_pdf_def env_blank_pages_def run_backend_def print_text_def is_ascii_def page_section_def page_marker_def
      str_nat.simps digit_char_def sections_text_def enumerate_eq_zip upt_rec)

subsection \<open>Round trip through the markers\<close>

text \<open>
  Claim C9 (as amended). The claim: splitting the concatenated output on its markers
  gives back the page indices and texts. For pages that return \<open>texts\<close>, none of which
  holds a blank line followed by \<open>=== PAGE\<close> and a space, each loop returns the
  rendering of its sections, and \<open>resplit\<close> of that rendering is that sequence of
  sections.
\<close>

theorem resplit_reproduces_sections:
  assumes "\<forall>t \<in> set texts. \<not> sublist ''\<newline>\<newline>=== PAGE '' (format_field t)"
  shows "loop_text_pages 0 [] (map Inr texts) = Inr (render (sections_text 0 texts))
       \<and> resplit (render (sections_text 0 texts)) = Some (sections_text 0 texts)
       \<and> loop_all_pages 0 [] (map Inr texts) = Inr (render (sections_all 0 texts))
       \<and> resplit (render (sections_all 0 texts)) = Some (sections_all 0 texts)"
proof (intro conjI)
  show "loop_text_pages 0 [] (map Inr texts) = Inr (render (sections_text 0 texts))"
    using loop_text_pages_sections [of 0 "[]" texts] by simp
  show "loop_all_pages 0 [] (map Inr texts) = Inr (render (sections_all 0 texts))"
    using loop_all_pages_sections [of 0 "[]" texts] by simp
  have "\<forall>(n, t) \<in> set (sections_text 0 texts). \<not> sublist ''\<newline>\<newline>=== PAGE '' t"
    using assms by (auto simp: sections_text_def in_set_enumerate_eq)
  then show "resplit (render (sections_text 0 texts)) = Some (sections_text 0 texts)"
    by (rule resplit_render)
  have "\<forall>(n, t) \<in> set (sections_all 0 texts). \<not> sublist ''\<newline>\<newline>=== PAGE '' t"
    using assms by (auto simp: sections_all_def in_set_enumerate_eq)
  then show "resplit (render (sections_all 0 texts)) = Some (sections_all 0 texts)"
    by (rule resplit_render)
qed

text \<open>
  The theorem above at three pages, the second without text: the output of the loop is
  split into the sections 1 and 3.
\<close>

theorem resplit_reproduces_sections_witness:
  "resplit ''=== PAGE 1 ===\<newline>a\<newline>\<newline>=== PAGE 3 ===\<newline>c\<newline>\<newline>''
     = Some [(1, ''a''), (3, ''c'')]
   \<and> loop_text_pages 0 [] [Inr (Some ''a''), Inr None, Inr (Some ''c'')]
     = Inr ''=== PAGE 1 ===\<newline>a\<newline>\<newline>=== PAGE 3 ===\<newline>c\<newline>\<newline>''"
  using resplit_reproduces_sections [of "[Some ''a'', None, Some ''c'']"]
  by (simp add: sections_text_def render_def enumerate_eq_zip upt_rec page_section_def page_marker_def
      str_nat.simps digit_char_def sublist_Cons_right)

text \<open>
  Counterexample to the claim as stated: a one-page document whose text holds a marker
  line gives the same output as a two-page document. Splitting gives the two pages, not
  the one page that was written; no way of splitting can give both.
\<close>

theorem marker_in_page_text_breaks_resplit:
  "sections_text 0 [Some ''a\<newline>\<newline>=== PAGE 2 ===\<newline>b''] = [(1, ''a\<newline>\<newline>=== PAGE 2 ===\<newline>b'')]
   \<and> loop_text_pages 0 [] [Inr (Some ''a\<newline>\<newline>=== PAGE 2 ===\<newline>b'')]
       = Inr ''=== PAGE 1 ===\<newline>a\<newline>\<newline>=== PAGE 2 ===\<newline>b\<newline>\<newline>''
   \<and> loop_text_pages 0 [] [Inr (Some ''a''), Inr (Some ''b'')]
       = Inr ''=== PAGE 1 ===\<newline>a\<newline>\<newline>=== PAGE 2 ===\<newline>b\<newline>\<newline>''
   \<and> resplit ''=== PAGE 1 ===\<newline>a\<newline>\<newline>=== PAGE 2 ===\<newline>b\<newline>\<newline>''
       = Some [(1, ''a''), (2, ''b'')]
   \<and> resplit (render (sections_text 0 [Some ''a\<newline>\<newline>=== PAGE 2 ===\<newline>b'']))
       \<noteq> Some (sections_text 0 [Some ''a\<newline>\<newline>=== PAGE 2 ===\<newline>b''])"
  by (simp add: sections_text_def render_def enumerate_eq_zip upt_rec page_section_def page_marker_def
      str_nat.simps digit_char_def resplit.simps parse_marker_def at_section_end_def is_digit_def
      int_of_digits_def digit_val_def)

subsection \<open>Text of a backend that raised\<close>

text \<open>
  Claim C10. In extract\_profile.py, when a page raises an exception other than
  \<open>ImportError\<close> after some pages were read, the pass for that library prints the line
  \<open>Error with <lib>: <message>\<close> and nothing else, and does not reach \<open>break\<close>: the
  text of the pages before is not printed. And every line that a chain of libraries
  prints is a line \<open><lib> not available\<close>, a line \<open>Error with <lib>: ...\<close>, a line
  \<open>SUCCESS with <lib>:\<close>, or the text that the loop of a library returned on
  completion.
\<close>

theorem partial_text_never_printed:
  assumes "lib \<in> set libraries_to_try"
    and "import_module e lib = None"
    and "open_reader e lib = Inr (map Inr texts @ Inl (OtherException m) # rest)"
  shows "try_lib e lib = ([Import lib, Open lib, Print (''Error with '' @ lib @ '': '' @ m)], False)
       \<and> (\<forall>s. Print s \<in> set (try_libs e libs) \<longrightarrow>
            (\<exists>l \<in> set libs. l \<in> set libraries_to_try \<and>
               (s = l @ '' not available'' \<or> (\<exists>x. s = ''Error with '' @ l @ '': '' @ x)
                \<or> s = ''SUCCESS with '' @ l @ '':''
                \<or> (\<exists>pages. import_module e l = None \<and> open_reader e l = Inr pages
                      \<and> loop_of l 0 [] pages = Inr s))))"
proof (intro conjI allI impI)
  have "loop_of lib 0 [] (map Inr texts @ Inl (OtherException m) # rest) = Inl (OtherException m)"
    by (simp add: loop_of_def loop_all_pages_raises loop_text_pages_raises)
  with assms(2,3) show "try_lib e lib =
      ([Import lib, Open lib, Print (''Error with '' @ lib @ '': '' @ m)], False)"
    by (simp add: try_lib_known [OF assms(1)] run_backend_def print_text_def is_ascii_def)
next
  fix s
  assume "Print s \<in> set (try_libs e libs)"
  then obtain l where "l \<in> set libs" "Print s \<in> set (fst (try_lib e l))"
    using try_libs_prints by blast
  then show "\<exists>l \<in> set libs. l \<in> set libraries_to_try \<and>
               (s = l @ '' not available'' \<or> (\<exists>x. s = ''Error with '' @ l @ '': '' @ x)
                \<or> s = ''SUCCESS with '' @ l @ '':''
                \<or> (\<exists>pages. import_module e l = None \<and> open_reader e l = Inr pages
                      \<and> loop_of l 0 [] pages = Inr s))"
    using try_lib_prints [of s e l] by blast
qed

text \<open>
  The theorem above at pypdf under \<open>env_page_raises\<close>, where the second of three
  pages raises.
\<close>

theorem partial_text_never_printed_witness:
  "try_lib env_page_raises ''pypdf'' =
     ([Import ''pypdf'', Open ''pypdf'', Print ''Error with pypdf: bad stream''], False)"
  using partial_text_never_printed
    [of "''pypdf''" env_page_raises "[Some ''a'']" "''bad stream''" "[Inr (Some ''c'')]"]
  by (simp add: env_page_raises_def libraries_to_try_def)

end
